theory Spec2Isabelle
  imports Complex_Main
begin

section \<open>Python values\<close>

text \<open>
  The two functions of the notebook, \<^verbatim>\<open>query_transunion\<close> and \<^verbatim>\<open>process_tu_lead\<close>,
  work on what \<^verbatim>\<open>json.loads\<close> returns: \<^verbatim>\<open>None\<close>, booleans, integers, floats,
  strings, lists and dictionaries with string keys.

  \<^item> A Python \<^verbatim>\<open>int\<close> is unbounded: \<open>int\<close>.
  \<^item> A float is given by its exact value (every finite double is a rational number), or
    is one of the three special values that \<^verbatim>\<open>json.loads\<close> also accepts. The two zeros
    \<^verbatim>\<open>0.0\<close> and \<^verbatim>\<open>-0.0\<close> are one value here; the code tells them apart nowhere.
  \<^item> A string is a list of characters. The two functions never look into a string of
    the input themselves: they compare it with other strings, test it for emptiness and
    hand it to \<^verbatim>\<open>str.lower\<close> or \<^verbatim>\<open>int\<close>. How a character outside ASCII is written
    as \<open>char\<close>s (its UTF-8 bytes, say) is therefore of no account, as long as
    different strings are written differently.
  \<^item> A dictionary is the list of its items in insertion order, keys distinct.
\<close>

datatype pyfloat = Finite rat | PosInf | NegInf | NaN

datatype json =
    JNull
  | JBool bool
  | JInt int
  | JFloat pyfloat
  | JStr string
  | JList "json list"
  | JObj "(string \<times> json) list"

text \<open>The exceptions the two functions can raise.\<close>

datatype error = AttributeError | TypeError | ValueError | OverflowError | KeyError

text \<open>
  Keys of the dictionary that \<^verbatim>\<open>process_tu_lead\<close> builds. Python compares dictionary keys
  with \<^verbatim>\<open>==\<close>, under which \<^verbatim>\<open>True\<close>, \<^verbatim>\<open>1\<close> and \<^verbatim>\<open>1.0\<close> are the same key: a number
  is a key by its value.
\<close>

datatype key = KNone | KNum rat | KPosInf | KNegInf | KNaN | KStr string

type_synonym pydict = "(key \<times> json) list"

text \<open>\<^verbatim>\<open>hash(x)\<close> as it happens on a dictionary store: lists and dictionaries are unhashable.\<close>

fun py_key :: "json \<Rightarrow> error + key" where
  "py_key JNull = Inr KNone"
| "py_key (JBool b) = Inr (KNum (if b then 1 else 0))"
| "py_key (JInt n) = Inr (KNum (of_int n))"
| "py_key (JFloat (Finite r)) = Inr (KNum r)"
| "py_key (JFloat PosInf) = Inr KPosInf"
| "py_key (JFloat NegInf) = Inr KNegInf"
| "py_key (JFloat NaN) = Inr KNaN"
| "py_key (JStr s) = Inr (KStr s)"
| "py_key (JList xs) = Inl TypeError"
| "py_key (JObj kvs) = Inl TypeError"

text \<open>\<^verbatim>\<open>d[k] = v\<close>: an existing key keeps its place, a new key goes to the end.\<close>

fun dict_set :: "pydict \<Rightarrow> key \<Rightarrow> json \<Rightarrow> pydict" where
  "dict_set [] k v = [(k, v)]"
| "dict_set ((k', v') # d) k v =
     (if k' = k then (k', v) # d else (k', v') # dict_set d k v)"

text \<open>\<^verbatim>\<open>d.update(e)\<close>: the items of \<open>e\<close> are stored into \<open>d\<close> one after the other.\<close>

fun dict_update :: "pydict \<Rightarrow> pydict \<Rightarrow> pydict" where
  "dict_update d [] = d"
| "dict_update d ((k, v) # e) = dict_update (dict_set d k v) e"

text \<open>Truth value of a Python object, as \<^verbatim>\<open>if x:\<close> tests it.\<close>

fun truthy :: "json \<Rightarrow> bool" where
  "truthy JNull = False"
| "truthy (JBool b) = b"
| "truthy (JInt n) = (n \<noteq> 0)"
| "truthy (JFloat f) = (f \<noteq> Finite 0)"
| "truthy (JStr s) = (s \<noteq> [])"
| "truthy (JList xs) = (xs \<noteq> [])"
| "truthy (JObj kvs) = (kvs \<noteq> [])"

text \<open>\<^verbatim>\<open>x.get(k)\<close>: only a dictionary has the method; a missing key gives \<^verbatim>\<open>None\<close>.\<close>

fun py_get :: "json \<Rightarrow> string \<Rightarrow> error + json" where
  "py_get (JObj kvs) k = Inr (case map_of kvs k of None \<Rightarrow> JNull | Some v \<Rightarrow> v)"
| "py_get _ k = Inl AttributeError"

text \<open>\<^verbatim>\<open>x.keys()\<close>: only a dictionary has the method.\<close>

fun py_keys :: "json \<Rightarrow> error + string list" where
  "py_keys (JObj kvs) = Inr (map fst kvs)"
| "py_keys _ = Inl AttributeError"

text \<open>
  \<^verbatim>\<open>x[k]\<close> with a string \<open>k\<close>. A dictionary raises \<^verbatim>\<open>KeyError\<close> on a missing key; a list
  or a string takes no string index and the other values are not subscriptable, both a
  \<^verbatim>\<open>TypeError\<close>.
\<close>

fun py_getitem :: "json \<Rightarrow> string \<Rightarrow> error + json" where
  "py_getitem (JObj kvs) k = (case map_of kvs k of None \<Rightarrow> Inl KeyError | Some v \<Rightarrow> Inr v)"
| "py_getitem _ k = Inl TypeError"

subsection \<open>The builtins \<^verbatim>\<open>str.lower\<close> and \<^verbatim>\<open>int\<close>\<close>

text \<open>
  \<^verbatim>\<open>str.lower\<close> and \<^verbatim>\<open>int\<close> on a string belong to the Python runtime, not to the
  notebook: what they compute rests on the tables of the Unicode character database
  (the case of every letter, the decimal digits of every script, the white space
  \<^verbatim>\<open>int\<close> strips). The model takes the two functions as a parameter, so that every
  theorem below holds for the functions of the runtime, whatever these tables say.
  \<^verbatim>\<open>str_int\<close> gives \<open>None\<close> where \<^verbatim>\<open>int\<close> raises its \<^verbatim>\<open>ValueError\<close>; \<^verbatim>\<open>str.lower\<close>
  raises nothing.
\<close>

record builtins =
  str_lower :: "string \<Rightarrow> string"
  str_int :: "string \<Rightarrow> int option"

text \<open>\<^verbatim>\<open>x.lower()\<close>: only a string has the method.\<close>

fun py_lower :: "builtins \<Rightarrow> json \<Rightarrow> error + json" where
  "py_lower py (JStr s) = Inr (JStr (str_lower py s))"
| "py_lower py _ = Inl AttributeError"

text \<open>
  \<^verbatim>\<open>int(x)\<close>. A float is cut towards zero; \<^verbatim>\<open>None\<close>, a list and a dictionary are no
  argument of \<^verbatim>\<open>int\<close>.
\<close>

fun py_int :: "builtins \<Rightarrow> json \<Rightarrow> error + int" where
  "py_int py JNull = Inl TypeError"
| "py_int py (JBool b) = Inr (if b then 1 else 0)"
| "py_int py (JInt n) = Inr n"
| "py_int py (JFloat (Finite r)) = Inr (if r < 0 then - \<lfloor>- r\<rfloor> else \<lfloor>r\<rfloor>)"
| "py_int py (JFloat PosInf) = Inl OverflowError"
| "py_int py (JFloat NegInf) = Inl OverflowError"
| "py_int py (JFloat NaN) = Inl ValueError"
| "py_int py (JStr s) = (case str_int py s of None \<Rightarrow> Inl ValueError | Some n \<Rightarrow> Inr n)"
| "py_int py (JList xs) = Inl TypeError"
| "py_int py (JObj kvs) = Inl TypeError"

section \<open>The Fetcher: \<^verbatim>\<open>query_transunion\<close>\<close>

text \<open>
  The request is sent and its answer parsed by library code (\<^verbatim>\<open>requests.post\<close>,
  \<^verbatim>\<open>json.loads\<close>); the function's own logic starts at the parsed answer
  \<^verbatim>\<open>response_json\<close>, which is the argument here. Python's \<^verbatim>\<open>None\<close> is \<open>JNull\<close>, also
  when the function ends without a \<^verbatim>\<open>return\<close>: the inner \<^verbatim>\<open>if\<close> has no \<^verbatim>\<open>else\<close>.
\<close>

definition query_transunion :: "json \<Rightarrow> error + json" where
  "query_transunion response_json =
     (case py_keys response_json of
        Inl e \<Rightarrow> Inl e
      | Inr ks \<Rightarrow>
          if ''transaction'' \<in> set ks then
            (case py_getitem response_json ''transaction'' of
               Inl e \<Rightarrow> Inl e
             | Inr transaction \<Rightarrow>
                 (case py_keys transaction of
                    Inl e \<Rightarrow> Inl e
                  | Inr ks' \<Rightarrow>
                      if ''output'' \<in> set ks' then py_getitem transaction ''output''
                      else Inr JNull))
          else Inr JNull)"

section \<open>The Normalizer: \<^verbatim>\<open>process_tu_lead\<close>\<close>

definition personal_variables :: "string list" where
  "personal_variables = [''email'', ''phone'', ''first'', ''last'']"

definition demo_variables :: "(string \<times> string) list" where
  "demo_variables =
     [(''age'', ''years''), (''income'', ''dollars''), (''children'', ''yes''),
      (''education'', ''years''), (''homeowner'', ''yes''), (''homevalue'', ''dollars''),
      (''resident'', ''years''), (''occupation'', ''first''),
      (''affiliation'', ''conservative''), (''affiliation'', ''liberal'')]"

text \<open>
  The value one round of the first loop stores: \<^verbatim>\<open>personal_data.get(personal_variable)\<close>,
  lower-cased when it is truthy.
\<close>

definition personal_value :: "builtins \<Rightarrow> json \<Rightarrow> string \<Rightarrow> error + json" where
  "personal_value py personal_data personal_variable =
     (case py_get personal_data personal_variable of
        Inl e \<Rightarrow> Inl e
      | Inr personal_variable_output \<Rightarrow>
          if truthy personal_variable_output then py_lower py personal_variable_output
          else Inr personal_variable_output)"

fun personal_loop :: "builtins \<Rightarrow> json \<Rightarrow> string list \<Rightarrow> pydict \<Rightarrow> error + pydict" where
  "personal_loop py personal_data [] personal_output = Inr personal_output"
| "personal_loop py personal_data (personal_variable # rest) personal_output =
     (case personal_value py personal_data personal_variable of
        Inl e \<Rightarrow> Inl e
      | Inr v \<Rightarrow>
          personal_loop py personal_data rest
            (dict_set personal_output (KStr personal_variable) v))"

text \<open>Lines 67 to 77: \<^verbatim>\<open>personal_output\<close> after the first loop.\<close>

definition personal_part :: "builtins \<Rightarrow> json \<Rightarrow> error + pydict" where
  "personal_part py json_lead =
     (case py_get json_lead ''data'' of
        Inl e \<Rightarrow> Inl e
      | Inr personal_data \<Rightarrow>
          if truthy personal_data then personal_loop py personal_data personal_variables []
          else Inr [])"

text \<open>The key of a demographic pair, \<^verbatim>\<open>f'{var_name}_{sub_var_name}'\<close>.\<close>

definition composite :: "string \<times> string \<Rightarrow> key" where
  "composite demo_var = KStr (fst demo_var @ ''_'' @ snd demo_var)"

fun demo_loop :: "json \<Rightarrow> (string \<times> string) list \<Rightarrow> pydict \<Rightarrow> error + pydict" where
  "demo_loop demo [] demo_output = Inr demo_output"
| "demo_loop demo (demo_var # rest) demo_output =
     (case py_keys demo of
        Inl e \<Rightarrow> Inl e
      | Inr keys \<Rightarrow>
          if fst demo_var \<in> set keys then
            (case py_getitem demo (fst demo_var) of
               Inl e \<Rightarrow> Inl e
             | Inr sub \<Rightarrow>
                 (case py_get sub (snd demo_var) of
                    Inl e \<Rightarrow> Inl e
                  | Inr v \<Rightarrow> demo_loop demo rest (dict_set demo_output (composite demo_var) v)))
          else demo_loop demo rest demo_output)"

text \<open>Lines 80 to 94: \<^verbatim>\<open>demo_output\<close> after the second loop, before the first merge.\<close>

definition demo_part :: "json \<Rightarrow> error + pydict" where
  "demo_part json_lead =
     (case py_get json_lead ''demo'' of
        Inl e \<Rightarrow> Inl e
      | Inr demo \<Rightarrow> if truthy demo then demo_loop demo demo_variables [] else Inr [])"

text \<open>
  What one round of the third loop stores: the key it stores under and the integer. The
  right-hand side \<^verbatim>\<open>int(score_number)\<close> is evaluated before the key is hashed.
\<close>

definition score_entry :: "builtins \<Rightarrow> json \<Rightarrow> error + key \<times> int" where
  "score_entry py score =
     (case py_get score ''name'' of
        Inl e \<Rightarrow> Inl e
      | Inr score_name \<Rightarrow>
          (case py_get score ''score'' of
             Inl e \<Rightarrow> Inl e
           | Inr score_number \<Rightarrow>
               (case py_int py score_number of
                  Inl e \<Rightarrow> Inl e
                | Inr n \<Rightarrow>
                    (case py_key score_name of
                       Inl e \<Rightarrow> Inl e
                     | Inr k \<Rightarrow> Inr (k, n)))))"

fun scores_loop :: "builtins \<Rightarrow> json list \<Rightarrow> pydict \<Rightarrow> error + pydict" where
  "scores_loop py [] scores_output = Inr scores_output"
| "scores_loop py (score # rest) scores_output =
     (case score_entry py score of
        Inl e \<Rightarrow> Inl e
      | Inr (k, n) \<Rightarrow> scores_loop py rest (dict_set scores_output k (JInt n)))"

text \<open>
  \<^verbatim>\<open>for score in scores\<close> over a truthy value. A list gives its elements. A non-empty
  dictionary or string gives a string first (a key, a character), on which \<^verbatim>\<open>.get\<close>
  fails. A number or \<^verbatim>\<open>True\<close> is not iterable.
\<close>

fun scores_iter :: "builtins \<Rightarrow> json \<Rightarrow> error + pydict" where
  "scores_iter py (JList scores) = scores_loop py scores []"
| "scores_iter py (JObj kvs) = Inl AttributeError"
| "scores_iter py (JStr s) = Inl AttributeError"
| "scores_iter py _ = Inl TypeError"

text \<open>Lines 98 to 105: \<^verbatim>\<open>scores_output\<close> after the third loop.\<close>

definition scores_part :: "builtins \<Rightarrow> json \<Rightarrow> error + pydict" where
  "scores_part py json_lead =
     (case py_get json_lead ''score'' of
        Inl e \<Rightarrow> Inl e
      | Inr scores \<Rightarrow> if truthy scores then scores_iter py scores else Inr [])"

text \<open>
  The whole function, in the order of the source: the personal loop, the demographic
  loop, the first merge, the score loop, the second merge.
\<close>

definition process_tu_lead :: "builtins \<Rightarrow> json \<Rightarrow> error + pydict" where
  "process_tu_lead py json_lead =
     (if json_lead = JNull then Inr []
      else
        (case personal_part py json_lead of
           Inl e \<Rightarrow> Inl e
         | Inr personal_output \<Rightarrow>
             (case demo_part json_lead of
                Inl e \<Rightarrow> Inl e
              | Inr demo_output \<Rightarrow>
                  (case scores_part py json_lead of
                     Inl e \<Rightarrow> Inl e
                   | Inr scores_output \<Rightarrow>
                       Inr (dict_update (dict_update demo_output personal_output)
                              scores_output)))))"

section \<open>The two builtins on ASCII strings\<close>

text \<open>
  For the examples, which are all written in ASCII, the two builtins are spelled out
  here as they work on a string of ASCII characters: there \<^verbatim>\<open>str.lower\<close> changes the
  letters \<^verbatim>\<open>A\<close> to \<^verbatim>\<open>Z\<close> and nothing else, and \<^verbatim>\<open>int\<close> strips the six white-space
  characters of C (tab, line feed, vertical tab, form feed, carriage return, space),
  reads one sign and then the digits \<^verbatim>\<open>0\<close> to \<^verbatim>\<open>9\<close>. On a string with a character
  outside ASCII these definitions are not the functions of the runtime (which lower-case
  the letters of every script, strip further white space and read the digits of every
  script); no theorem uses them but the closed examples.
\<close>

definition ascii_lower_char :: "char \<Rightarrow> char" where
  "ascii_lower_char c =
     (case map_of (zip ''ABCDEFGHIJKLMNOPQRSTUVWXYZ'' ''abcdefghijklmnopqrstuvwxyz'') c of
        None \<Rightarrow> c
      | Some l \<Rightarrow> l)"

definition ascii_lower :: "string \<Rightarrow> string" where
  "ascii_lower s = map ascii_lower_char s"

definition ascii_space :: "char \<Rightarrow> bool" where
  "ascii_space c \<longleftrightarrow> (of_char c :: nat) \<in> {9, 10, 11, 12, 13, 32}"

definition ascii_digit :: "char \<Rightarrow> int option" where
  "ascii_digit c = map_of (zip ''0123456789'' [0, 1, 2, 3, 4, 5, 6, 7, 8, 9]) c"

text \<open>
  The digits of a decimal literal, read left to right. The flag says that the character
  before was a digit: an underscore may stand between two digits only, and the literal
  ends on a digit.
\<close>

fun ascii_scan :: "bool \<Rightarrow> int \<Rightarrow> string \<Rightarrow> int option" where
  "ascii_scan after_digit acc [] = (if after_digit then Some acc else None)"
| "ascii_scan after_digit acc (c # cs) =
     (case ascii_digit c of
        Some d \<Rightarrow> ascii_scan True (10 * acc + d) cs
      | None \<Rightarrow> if c = CHR ''_'' \<and> after_digit then ascii_scan False acc cs else None)"

text \<open>
  \<^verbatim>\<open>int(s)\<close> for an ASCII string: white space around the literal is dropped, one sign
  may come first. (The notebook runs Python 3.10.4, which has no limit on the number of
  digits.)
\<close>

definition ascii_int :: "string \<Rightarrow> int option" where
  "ascii_int s =
     (case rev (dropWhile ascii_space (rev (dropWhile ascii_space s))) of
        [] \<Rightarrow> None
      | c # cs \<Rightarrow>
          if c = CHR ''-'' then map_option uminus (ascii_scan False 0 cs)
          else if c = CHR ''+'' then ascii_scan False 0 cs
          else ascii_scan False 0 (c # cs))"

definition ascii_builtins :: builtins where
  "ascii_builtins = \<lparr>str_lower = ascii_lower, str_int = ascii_int\<rparr>"

section \<open>Records used as examples\<close>

text \<open>The answer printed in the notebook (cell 4), as \<^verbatim>\<open>json.loads\<close> delivered it.\<close>

definition notebook_lead :: json where
  "notebook_lead = JObj
     [(''address'', JObj [(''address'', JStr ''77 ALLEN ST''), (''city'', JStr ''BUFFALO''),
        (''state'', JStr ''NY''), (''zip'', JStr ''142021319'')]),
      (''data'', JObj [(''input'', JStr ''data''), (''first'', JStr ''JAWHAR''),
        (''last'', JStr ''MOHAMMED''), (''address'', JStr ''77 ALLEN ST''),
        (''city'', JStr ''BUFFALO''), (''company'', JStr ''SERRANO MARIA CONSULTANT''),
        (''dob'', JStr ''199609''), (''phone'', JStr ''3124784892''), (''state'', JStr ''NY''),
        (''zip'', JStr ''142021319'')]),
      (''verify'', JObj [(''input'', JStr ''data''), (''first'', JStr ''exact match''),
        (''last'', JStr ''exact match''), (''address'', JStr ''exact match''),
        (''company'', JStr ''exact match''), (''dob'', JStr ''exact match''),
        (''phone'', JStr ''exact match'')]),
      (''message'', JList
        [JObj [(''input'', JStr ''data''), (''code'', JStr ''AA13''),
           (''message'', JStr ''Apartment or highrise address'')],
         JObj [(''input'', JStr ''data''), (''code'', JStr ''AP04''),
           (''message'', JStr ''Phone is cellular or mobile'')],
         JObj [(''input'', JStr ''data''), (''code'', JStr ''AA17''),
           (''message'', JStr ''Address was DPV confirmed for the primary number only, and secondary number information was missing'')],
         JObj [(''input'', JStr ''data''), (''code'', JStr ''AA23''),
           (''message'', JStr ''Address is not receiving delivery'')],
         JObj [(''input'', JStr ''data''), (''code'', JStr ''AA17''),
           (''message'', JStr ''Address was DPV confirmed for the primary number only, and secondary number information was missing'')],
         JObj [(''input'', JStr ''data''), (''code'', JStr ''AA23''),
           (''message'', JStr ''Address is not receiving delivery'')]]),
      (''score'', JList
        [JObj [(''name'', JStr ''ebureau-score-market-201801220508''),
           (''range'', JStr ''0-999''), (''score'', JStr ''222'')],
         JObj [(''name'', JStr ''ebureau-score-market-201805170506''),
           (''range'', JStr ''300-850''), (''score'', JStr ''520'')]])]"

definition lead_john :: json where
  "lead_john = JObj [(''data'', JObj [(''first'', JStr ''JOHN'')])]"

definition lead_blank_email :: json where
  "lead_blank_email = JObj [(''data'', JObj [(''email'', JStr ''''), (''first'', JStr ''JOHN'')])]"

definition lead_age :: json where
  "lead_age = JObj [(''demo'', JObj [(''age'', JObj [(''years'', JInt 45)])])]"

definition lead_scored_demo :: json where
  "lead_scored_demo = JObj
     [(''demo'', JObj [(''age'', JObj [(''years'', JInt 45)])]),
      (''score'', JList
         [JObj [(''name'', JStr ''age_years''), (''score'', JStr ''7'')],
          JObj [(''name'', JStr ''income_dollars''), (''score'', JStr ''9'')]])]"

definition lead_collision :: json where
  "lead_collision = JObj
     [(''data'', JObj [(''email'', JStr ''A@B.C'')]),
      (''score'', JList [JObj [(''name'', JStr ''email''), (''score'', JStr ''7'')]])]"

definition lead_risk :: json where
  "lead_risk = JObj
     [(''score'', JList
         [JObj [(''name'', JStr ''riskA''), (''score'', JStr ''111'')],
          JObj [(''name'', JStr ''riskA''), (''score'', JStr ''222'')]])]"

definition lead_bad_score :: json where
  "lead_bad_score = JObj
     [(''score'', JList [JObj [(''name'', JStr ''riskA''), (''score'', JStr ''abc'')]])]"

definition lead_no_score_key :: json where
  "lead_no_score_key = JObj [(''score'', JList [JObj [(''name'', JStr ''riskA'')]])]"

definition lead_no_name :: json where
  "lead_no_name = JObj [(''score'', JList [JObj [(''score'', JStr ''5'')]])]"

definition lead_phone_int :: json where
  "lead_phone_int = JObj [(''data'', JObj [(''phone'', JInt 3124784892)])]"

section \<open>The score entry of the data model\<close>

text \<open>
  The score entry as the specification's data model describes it, a record with a
  \<^verbatim>\<open>name\<close> and a string-encoded integer \<^verbatim>\<open>score\<close>: a mapping whose \<^verbatim>\<open>name\<close> is a string
  and whose \<^verbatim>\<open>score\<close> is a string that the runtime's \<^verbatim>\<open>int\<close> accepts. The result is the
  name and the integer that \<^verbatim>\<open>int\<close> gives; \<open>None\<close> says that the entry has another shape.
  The code has no such check: the function only states which entries the theorem on
  scores is about.
\<close>

fun score_record :: "builtins \<Rightarrow> json \<Rightarrow> (string \<times> int) option" where
  "score_record py (JObj items) =
     (case map_of items ''name'' of
        Some (JStr name) \<Rightarrow>
          (case map_of items ''score'' of
             Some (JStr str) \<Rightarrow> map_option (Pair name) (str_int py str)
           | _ \<Rightarrow> None)
      | _ \<Rightarrow> None)"
| "score_record py _ = None"

section \<open>Dictionaries\<close>

lemma map_of_dict_set: "map_of (dict_set d k v) = (map_of d)(k \<mapsto> v)"
  by (induction d k v rule: dict_set.induct) (auto simp: fun_eq_iff)

lemma keys_dict_set: "fst ` set (dict_set d k v) = insert k (fst ` set d)"
  by (induction d k v rule: dict_set.induct) auto

lemma distinct_dict_set:
  "distinct (map fst d) \<Longrightarrow> distinct (map fst (dict_set d k v))"
  by (induction d k v rule: dict_set.induct) (auto simp: keys_dict_set)

lemma map_of_dict_update:
  "distinct (map fst e) \<Longrightarrow> map_of (dict_update d e) = map_of d ++ map_of e"
proof (induction d e rule: dict_update.induct)
  case (1 d)
  show ?case by simp
next
  case (2 d k v e)
  from "2.prems" have fresh: "k \<notin> dom (map_of e)" and rest: "distinct (map fst e)"
    by (auto simp: dom_map_of_conv_image_fst)
  have "map_of (dict_update (dict_set d k v) e) = (map_of d)(k \<mapsto> v) ++ map_of e"
    using "2.IH" [OF rest] unfolding map_of_dict_set .
  also have "\<dots> = (map_of d ++ map_of e)(k \<mapsto> v)"
    using fresh by (rule map_add_upd_left)
  finally show ?case
    by (simp only: dict_update.simps map_of.simps fst_conv snd_conv map_add_upd)
qed

lemma keys_dict_update: "fst ` set (dict_update d e) = fst ` set d \<union> fst ` set e"
  by (induction d e rule: dict_update.induct) (auto simp: keys_dict_set)

section \<open>The three loops\<close>

subsection \<open>The personal loop\<close>

lemma personal_loop_keys:
  "personal_loop py pd vs out = Inr p \<Longrightarrow> fst ` set p = fst ` set out \<union> KStr ` set vs"
  by (induction vs arbitrary: out) (auto simp: keys_dict_set split: sum.splits)

lemma personal_loop_distinct:
  "personal_loop py pd vs out = Inr p \<Longrightarrow> distinct (map fst out) \<Longrightarrow> distinct (map fst p)"
  by (induction vs arbitrary: out) (auto simp: distinct_dict_set split: sum.splits)

lemma personal_loop_other:
  "personal_loop py pd vs out = Inr p \<Longrightarrow> k \<notin> KStr ` set vs \<Longrightarrow> map_of p k = map_of out k"
  by (induction vs arbitrary: out) (auto simp: map_of_dict_set split: sum.splits)

lemma personal_loop_value:
  "personal_loop py pd vs out = Inr p \<Longrightarrow> pv \<in> set vs \<Longrightarrow>
   \<exists>v. personal_value py pd pv = Inr v \<and> map_of p (KStr pv) = Some v"
proof (induction vs arbitrary: out)
  case Nil
  then show ?case by simp
next
  case (Cons a vs)
  from Cons.prems(1) obtain v where v: "personal_value py pd a = Inr v"
    and run: "personal_loop py pd vs (dict_set out (KStr a) v) = Inr p"
    by (auto split: sum.splits)
  show ?case
  proof (cases "pv \<in> set vs")
    case True
    then show ?thesis using Cons.IH [OF run] by simp
  next
    case False
    with Cons.prems(2) have "pv = a" by simp
    moreover have "map_of p (KStr a) = map_of (dict_set out (KStr a) v) (KStr a)"
      using personal_loop_other [OF run, of "KStr a"] False \<open>pv = a\<close> by auto
    ultimately show ?thesis using v by (simp add: map_of_dict_set)
  qed
qed

lemma personal_loop_ok:
  "\<forall>pv\<in>set vs. \<exists>v. personal_value py pd pv = Inr v \<Longrightarrow> \<exists>p. personal_loop py pd vs out = Inr p"
  by (induction vs arbitrary: out) (auto split: sum.splits)

lemma personal_value_cases:
  "personal_value py (JObj items) pv = Inr w \<Longrightarrow>
   (case map_of items pv of
      None \<Rightarrow> w = JNull
    | Some v \<Rightarrow>
        if truthy v then \<exists>str. v = JStr str \<and> w = JStr (str_lower py str) else w = v)"
proof (cases "map_of items pv")
  case None
  assume "personal_value py (JObj items) pv = Inr w"
  with None show ?thesis by (simp add: personal_value_def)
next
  case (Some v)
  assume "personal_value py (JObj items) pv = Inr w"
  with Some show ?thesis by (cases v) (auto simp: personal_value_def split: if_splits)
qed

lemma personal_value_ok:
  "(\<exists>w. personal_value py (JObj items) pv = Inr w) \<longleftrightarrow>
   (\<forall>v. map_of items pv = Some v \<longrightarrow> (\<exists>str. v = JStr str) \<or> \<not> truthy v)"
proof (cases "map_of items pv")
  case None
  then show ?thesis by (simp add: personal_value_def)
next
  case (Some v)
  then show ?thesis by (cases v) (simp_all add: personal_value_def)
qed

lemma personal_value_error:
  "personal_value py (JObj items) pv = Inl err \<Longrightarrow> err = AttributeError"
proof (cases "map_of items pv")
  case None
  assume "personal_value py (JObj items) pv = Inl err"
  with None show ?thesis by (simp add: personal_value_def)
next
  case (Some v)
  assume "personal_value py (JObj items) pv = Inl err"
  with Some show ?thesis by (cases v) (simp_all add: personal_value_def split: if_splits)
qed

lemma personal_loop_error:
  "personal_loop py (JObj items) vs out = Inl err \<Longrightarrow> err = AttributeError"
  by (induction vs arbitrary: out) (auto split: sum.splits dest: personal_value_error)

lemma personal_part_distinct: "personal_part py lead = Inr p \<Longrightarrow> distinct (map fst p)"
  unfolding personal_part_def
  by (auto split: sum.splits if_splits dest: personal_loop_distinct)

lemma personal_part_keys:
  "personal_part py lead = Inr p \<Longrightarrow> fst ` set p \<subseteq> KStr ` set personal_variables"
  by (auto simp: personal_part_def split: sum.splits if_splits dest!: personal_loop_keys)

lemma personal_part_value:
  assumes "personal_part py lead = Inr p" and "py_get lead ''data'' = Inr personal_data"
    and "truthy personal_data" and "pv \<in> set personal_variables"
  shows "\<exists>items w. personal_data = JObj items \<and> personal_value py personal_data pv = Inr w \<and>
     map_of p (KStr pv) = Some w"
proof -
  from assms(1-3) have run: "personal_loop py personal_data personal_variables [] = Inr p"
    by (simp add: personal_part_def)
  from personal_loop_value [OF run assms(4)] obtain w
    where w: "personal_value py personal_data pv = Inr w" "map_of p (KStr pv) = Some w"
    by blast
  from w(1) obtain items where "personal_data = JObj items"
    by (cases personal_data) (simp_all add: personal_value_def)
  with w show ?thesis by blast
qed

lemma personal_part_missing:
  "map_of kvs ''data'' = None \<Longrightarrow> personal_part py (JObj kvs) = Inr []"
  by (simp add: personal_part_def)

subsection \<open>The demographic loop\<close>

lemma demo_loop_keys:
  "demo_loop demo vars out = Inr d \<Longrightarrow> fst ` set d \<subseteq> fst ` set out \<union> composite ` set vars"
proof (induction vars arbitrary: out)
  case Nil
  then show ?case by simp
next
  case (Cons a vars)
  from Cons.prems obtain out' where run: "demo_loop demo vars out' = Inr d"
    and out': "fst ` set out' \<subseteq> insert (composite a) (fst ` set out)"
    by (auto simp: keys_dict_set split: sum.splits if_splits)
  from Cons.IH [OF run] out' show ?case by auto
qed

lemma demo_loop_distinct:
  "demo_loop demo vars out = Inr d \<Longrightarrow> distinct (map fst out) \<Longrightarrow> distinct (map fst d)"
  by (induction vars arbitrary: out) (auto simp: distinct_dict_set split: sum.splits if_splits)

lemma demo_loop_other:
  "demo_loop demo vars out = Inr d \<Longrightarrow> k \<notin> composite ` set vars \<Longrightarrow> map_of d k = map_of out k"
  by (induction vars arbitrary: out) (auto simp: map_of_dict_set split: sum.splits if_splits)

lemma demo_loop_dict:
  "demo_loop demo vars out = Inr d \<Longrightarrow> vars \<noteq> [] \<Longrightarrow> \<exists>dkvs. demo = JObj dkvs"
  by (cases vars; cases demo) (auto split: sum.splits)

lemma demo_loop_value:
  "demo_loop (JObj dkvs) vars out = Inr d \<Longrightarrow> distinct (map composite vars) \<Longrightarrow> dv \<in> set vars \<Longrightarrow>
   (case map_of dkvs (fst dv) of
      None \<Rightarrow> map_of d (composite dv) = map_of out (composite dv)
    | Some sub \<Rightarrow> \<exists>v. py_get sub (snd dv) = Inr v \<and> map_of d (composite dv) = Some v)"
proof (induction vars arbitrary: out)
  case Nil
  then show ?case by simp
next
  case (Cons a vars)
  show ?case
  proof (cases "dv = a")
    case True
    from Cons.prems(2) have fresh: "composite a \<notin> composite ` set vars" by simp
    show ?thesis
    proof (cases "map_of dkvs (fst a)")
      case None
      then have "fst a \<notin> fst ` set dkvs" by (simp add: map_of_eq_None_iff)
      with Cons.prems(1) have "demo_loop (JObj dkvs) vars out = Inr d" by simp
      from demo_loop_other [OF this fresh] show ?thesis using None True by simp
    next
      case (Some sub)
      then have "fst a \<in> fst ` set dkvs" by (metis map_of_eq_None_iff option.distinct(1))
      with Cons.prems(1) Some obtain v where v: "py_get sub (snd a) = Inr v"
        and run: "demo_loop (JObj dkvs) vars (dict_set out (composite a) v) = Inr d"
        by (auto split: sum.splits)
      from demo_loop_other [OF run fresh] show ?thesis
        using Some True v by (simp add: map_of_dict_set)
    qed
  next
    case False
    with Cons.prems have mem: "dv \<in> set vars" and dist: "distinct (map composite vars)"
      by simp_all
    from mem have "composite dv \<in> composite ` set vars" by (rule imageI)
    moreover from Cons.prems(2) have "composite a \<notin> composite ` set vars" by simp
    ultimately have ne: "composite dv \<noteq> composite a" by metis
    from Cons.prems(1) obtain out' where run: "demo_loop (JObj dkvs) vars out' = Inr d"
      and out': "map_of out' (composite dv) = map_of out (composite dv)"
      using ne by (auto simp: map_of_dict_set split: sum.splits if_splits)
    from Cons.IH [OF run dist mem] out' show ?thesis by (simp split: option.splits)
  qed
qed

lemma distinct_demo_variables: "distinct (map composite demo_variables)"
  by (simp add: demo_variables_def composite_def)

lemma composite_not_personal:
  "dv \<in> set demo_variables \<Longrightarrow> composite dv \<notin> KStr ` set personal_variables"
  by (auto simp: demo_variables_def composite_def personal_variables_def)

lemma demo_part_keys:
  "demo_part lead = Inr d \<Longrightarrow> fst ` set d \<subseteq> composite ` set demo_variables"
  by (auto simp: demo_part_def split: sum.splits if_splits dest!: demo_loop_keys)

lemma demo_part_value:
  assumes "demo_part lead = Inr d" and "py_get lead ''demo'' = Inr demo"
    and "dv \<in> set demo_variables"
  shows "case demo of
           JObj items \<Rightarrow>
             (case map_of items (fst dv) of
                None \<Rightarrow> map_of d (composite dv) = None
              | Some sub \<Rightarrow> \<exists>v. py_get sub (snd dv) = Inr v \<and> map_of d (composite dv) = Some v)
         | _ \<Rightarrow> map_of d (composite dv) = None"
proof (cases "truthy demo")
  case False
  with assms(1,2) have "d = []" by (simp add: demo_part_def)
  with False show ?thesis by (cases demo) simp_all
next
  case True
  with assms(1,2) have run: "demo_loop demo demo_variables [] = Inr d"
    by (simp add: demo_part_def)
  from assms(3) have "demo_variables \<noteq> []" by auto
  from demo_loop_dict [OF run this] obtain items where items: "demo = JObj items" by blast
  from demo_loop_value [OF run [unfolded items] distinct_demo_variables assms(3)]
  show ?thesis by (simp add: items split: option.splits)
qed

lemma demo_part_missing:
  "map_of kvs ''demo'' = None \<Longrightarrow> demo_part (JObj kvs) = Inr []"
  by (simp add: demo_part_def)

subsection \<open>The score loop\<close>

lemma score_entry_Inr:
  "score_entry py e = Inr (k, n) \<longleftrightarrow>
   (\<exists>name v. py_get e ''name'' = Inr name \<and> py_get e ''score'' = Inr v \<and>
      py_int py v = Inr n \<and> py_key name = Inr k)"
  by (auto simp: score_entry_def split: sum.splits)

lemma score_record_entry:
  assumes "score_record py e = Some (name, n)"
  shows "score_entry py e = Inr (KStr name, n)"
proof -
  from assms obtain items where e: "e = JObj items" by (cases e) simp_all
  from assms e obtain nm where nm: "map_of items ''name'' = Some nm"
    by (cases "map_of items ''name''") simp_all
  from assms e nm have nm': "nm = JStr name" by (cases nm) (auto split: option.splits json.splits)
  from assms e nm nm' obtain sc where sc: "map_of items ''score'' = Some sc"
    by (cases "map_of items ''score''") simp_all
  from assms e nm nm' sc obtain str where str: "sc = JStr str" by (cases sc) simp_all
  from assms e nm nm' sc str have "str_int py str = Some n" by auto
  with e nm nm' sc str show ?thesis by (simp add: score_entry_def)
qed

lemma scores_loop_append:
  "scores_loop py (xs @ ys) out =
     (case scores_loop py xs out of Inl e \<Rightarrow> Inl e | Inr mid \<Rightarrow> scores_loop py ys mid)"
  by (induction xs arbitrary: out) (auto split: sum.splits)

lemma scores_loop_keys:
  "scores_loop py es out = Inr s \<Longrightarrow>
   fst ` set s = fst ` set out \<union> {k. \<exists>e\<in>set es. \<exists>n. score_entry py e = Inr (k, n)}"
proof (induction es arbitrary: out)
  case Nil
  then show ?case by simp
next
  case (Cons a es)
  from Cons.prems obtain k n where a: "score_entry py a = Inr (k, n)"
    and run: "scores_loop py es (dict_set out k (JInt n)) = Inr s"
    by (auto split: sum.splits)
  from Cons.IH [OF run] a show ?case
    by (auto simp: keys_dict_set)
qed

lemma scores_loop_distinct:
  "scores_loop py es out = Inr s \<Longrightarrow> distinct (map fst out) \<Longrightarrow> distinct (map fst s)"
  by (induction es arbitrary: out) (auto simp: distinct_dict_set split: sum.splits)

lemma scores_loop_other:
  "scores_loop py es out = Inr s \<Longrightarrow> \<forall>e\<in>set es. \<forall>n. score_entry py e \<noteq> Inr (k, n) \<Longrightarrow>
   map_of s k = map_of out k"
  by (induction es arbitrary: out) (auto simp: map_of_dict_set split: sum.splits)

lemma scores_loop_entries:
  "scores_loop py es out = Inr s \<Longrightarrow> e \<in> set es \<Longrightarrow> \<exists>k n. score_entry py e = Inr (k, n)"
  by (induction es arbitrary: out) (auto split: sum.splits)

lemma scores_loop_ok:
  "\<forall>e\<in>set es. \<exists>k n. score_entry py e = Inr (k, n) \<Longrightarrow> \<exists>s. scores_loop py es out = Inr s"
  by (induction es arbitrary: out) (auto split: sum.splits)

lemma scores_loop_first_error:
  assumes "\<forall>e\<in>set pre. \<exists>k n. score_entry py e = Inr (k, n)" and "score_entry py e = Inl err"
  shows "scores_loop py (pre @ e # post) out = Inl err"
proof -
  from scores_loop_ok [OF assms(1)] obtain mid where "scores_loop py pre out = Inr mid" by blast
  with assms(2) show ?thesis by (simp add: scores_loop_append)
qed

lemma scores_loop_last:
  assumes run: "scores_loop py (pre @ e # post) out = Inr s"
    and e: "score_entry py e = Inr (k, n)"
    and later: "\<forall>e'\<in>set post. \<forall>n'. score_entry py e' \<noteq> Inr (k, n')"
  shows "map_of s k = Some (JInt n)"
proof -
  from run obtain mid where mid: "scores_loop py pre out = Inr mid"
    and rest: "scores_loop py (e # post) mid = Inr s"
    by (auto simp: scores_loop_append split: sum.splits)
  from rest e have "scores_loop py post (dict_set mid k (JInt n)) = Inr s" by simp
  from scores_loop_other [OF this later] show ?thesis by (simp add: map_of_dict_set)
qed

lemma scores_loop_ints:
  "scores_loop py es out = Inr s \<Longrightarrow> map_of s k = Some v \<Longrightarrow>
   (\<exists>n. v = JInt n) \<or> map_of out k = Some v"
proof (induction es arbitrary: out)
  case Nil
  then show ?case by simp
next
  case (Cons a es)
  from Cons.prems(1) obtain k' n where
    run: "scores_loop py es (dict_set out k' (JInt n)) = Inr s"
    by (auto split: sum.splits)
  from Cons.IH [OF run Cons.prems(2)] show ?case
    by (auto simp: map_of_dict_set split: if_splits)
qed

lemma scores_part_list:
  "py_get lead ''score'' = Inr (JList es) \<Longrightarrow> scores_part py lead = scores_loop py es []"
  by (cases es) (simp_all add: scores_part_def)

lemma scores_part_distinct: "scores_part py lead = Inr s \<Longrightarrow> distinct (map fst s)"
proof -
  assume run: "scores_part py lead = Inr s"
  then obtain scores where sc: "py_get lead ''score'' = Inr scores"
    by (auto simp: scores_part_def split: sum.splits)
  show ?thesis
  proof (cases "truthy scores")
    case False
    with run sc show ?thesis by (simp add: scores_part_def)
  next
    case True
    with run sc have "scores_iter py scores = Inr s" by (simp add: scores_part_def)
    then show ?thesis by (cases scores) (auto dest: scores_loop_distinct)
  qed
qed

lemma scores_part_keys:
  assumes "scores_part py lead = Inr s" and "k \<in> fst ` set s"
  shows "\<exists>es e name. py_get lead ''score'' = Inr (JList es) \<and> e \<in> set es \<and>
           py_get e ''name'' = Inr name \<and> py_key name = Inr k"
proof -
  from assms(1) obtain scores where sc: "py_get lead ''score'' = Inr scores"
    by (auto simp: scores_part_def split: sum.splits)
  from assms have "truthy scores" using sc by (auto simp: scores_part_def split: if_splits)
  with assms(1) sc have iter: "scores_iter py scores = Inr s" by (simp add: scores_part_def)
  then obtain es where es: "scores = JList es" by (cases scores) simp_all
  with iter have "scores_loop py es [] = Inr s" by simp
  from scores_loop_keys [OF this] assms(2) obtain e n
    where "e \<in> set es" and "score_entry py e = Inr (k, n)" by auto
  with sc es show ?thesis by (auto simp: score_entry_Inr)
qed

lemma scores_part_missing:
  "map_of kvs ''score'' = None \<Longrightarrow> scores_part py (JObj kvs) = Inr []"
  by (simp add: scores_part_def)

subsection \<open>The two merges\<close>

lemma process_tu_lead_parts:
  assumes "process_tu_lead py lead = Inr out" and "lead \<noteq> JNull"
  obtains p d s where "personal_part py lead = Inr p" and "demo_part lead = Inr d"
    and "scores_part py lead = Inr s" and "out = dict_update (dict_update d p) s"
  using assms by (auto simp: process_tu_lead_def split: sum.splits)

lemma process_tu_lead_merge:
  assumes "personal_part py lead = Inr p" and "demo_part lead = Inr d"
    and "scores_part py lead = Inr s"
  shows "process_tu_lead py lead = Inr (dict_update (dict_update d p) s)"
proof -
  from assms(1) have "lead \<noteq> JNull" by (auto simp: personal_part_def)
  with assms show ?thesis by (simp add: process_tu_lead_def)
qed

lemma process_tu_lead_personal_error:
  assumes "lead \<noteq> JNull" and "personal_part py lead = Inl err"
  shows "process_tu_lead py lead = Inl err"
  using assms by (simp add: process_tu_lead_def)

lemma process_tu_lead_score_error:
  assumes "personal_part py lead = Inr p" and "demo_part lead = Inr d"
    and "scores_part py lead = Inl err"
  shows "process_tu_lead py lead = Inl err"
proof -
  from assms(1) have "lead \<noteq> JNull" by (auto simp: personal_part_def)
  with assms show ?thesis by (simp add: process_tu_lead_def)
qed

lemma merged_lookup:
  assumes "personal_part py lead = Inr p" and "scores_part py lead = Inr s"
  shows "map_of (dict_update (dict_update d p) s) k =
     (case map_of s k of
        Some v \<Rightarrow> Some v
      | None \<Rightarrow> (case map_of p k of Some v \<Rightarrow> Some v | None \<Rightarrow> map_of d k))"
  using personal_part_distinct [OF assms(1)] scores_part_distinct [OF assms(2)]
  by (simp add: map_of_dict_update map_add_def split: option.splits)

section \<open>The ASCII builtins at work\<close>

text \<open>
  A few values of the two ASCII functions, each as Python gives it: \<^verbatim>\<open>int\<close> strips
  C white space only (a unit separator \<^verbatim>\<open>0x1f\<close> is none), takes underscores between
  digits and one sign, and rejects \<^verbatim>\<open>'3.5'\<close> and the empty string.
\<close>

lemma ascii_builtins_examples:
  "ascii_int ''222'' = Some 222 \<and>
   ascii_int [CHR 0x09, CHR ''-'', CHR ''1'', CHR ''_'', CHR ''0'', CHR 0x0A] = Some (- 10) \<and>
   ascii_int [CHR 0x1F, CHR ''7''] = None \<and>
   ascii_int ''3.5'' = None \<and>
   ascii_int ''1__0'' = None \<and>
   ascii_int [] = None \<and>
   ascii_lower ''Jawhar_42'' = ''jawhar_42''"
  by code_simp

section \<open>The run recorded in the notebook\<close>

text \<open>
  Cell 5 of the notebook prints what \<^verbatim>\<open>process_tu_lead\<close> made of the answer of cell 4,
  which is written in ASCII; the model computes the same dictionary, item for item and
  in the same order.
\<close>

lemma notebook_run:
  "process_tu_lead ascii_builtins notebook_lead = Inr
     [(KStr ''email'', JNull), (KStr ''phone'', JStr ''3124784892''),
      (KStr ''first'', JStr ''jawhar''), (KStr ''last'', JStr ''mohammed''),
      (KStr ''ebureau-score-market-201801220508'', JInt 222),
      (KStr ''ebureau-score-market-201805170506'', JInt 520)]"
  by code_simp

section \<open>Precedence of the three mappings\<close>

text \<open>
  Claim C1. On a record that is not absent and on which the Normalizer returns, the
  output is the demographic mapping overwritten by the personal mapping, and that
  overwritten by the score mapping: a key is looked up in the score mapping first, then
  in the personal one, then in the demographic one. In particular a score entry named
  like a personal field decides the value under that name: the output holds the integer
  of the last score entry of that name, whatever the personal loop stored there.
\<close>

theorem merge_precedence:
  assumes "lead \<noteq> JNull" and "process_tu_lead py lead = Inr out"
  shows "(\<exists>personal_output demo_output scores_output.
            personal_part py lead = Inr personal_output \<and>
            demo_part lead = Inr demo_output \<and>
            scores_part py lead = Inr scores_output \<and>
            (\<forall>k. map_of out k =
               (case map_of scores_output k of
                  Some v \<Rightarrow> Some v
                | None \<Rightarrow>
                    (case map_of personal_output k of
                       Some v \<Rightarrow> Some v
                     | None \<Rightarrow> map_of demo_output k)))) \<and>
         (\<forall>pre e post name n.
            py_get lead ''score'' = Inr (JList (pre @ e # post)) \<and>
            score_entry py e = Inr (KStr name, n) \<and>
            name \<in> set personal_variables \<and>
            (\<forall>e'\<in>set post. \<forall>n'. score_entry py e' \<noteq> Inr (KStr name, n')) \<longrightarrow>
            map_of out (KStr name) = Some (JInt n))"
proof -
  from assms(2,1) obtain p d s where p: "personal_part py lead = Inr p"
    and d: "demo_part lead = Inr d" and s: "scores_part py lead = Inr s"
    and out: "out = dict_update (dict_update d p) s"
    by (rule process_tu_lead_parts)
  have look: "map_of out k =
      (case map_of s k of
         Some v \<Rightarrow> Some v
       | None \<Rightarrow> (case map_of p k of Some v \<Rightarrow> Some v | None \<Rightarrow> map_of d k))" for k
    unfolding out by (rule merged_lookup [OF p s])
  have "map_of out (KStr name) = Some (JInt n)"
    if get: "py_get lead ''score'' = Inr (JList (pre @ e # post))"
      and e: "score_entry py e = Inr (KStr name, n)"
      and later: "\<forall>e'\<in>set post. \<forall>n'. score_entry py e' \<noteq> Inr (KStr name, n')"
    for pre e post name n
  proof -
    from s get have "scores_loop py (pre @ e # post) [] = Inr s"
      by (simp add: scores_part_list)
    from scores_loop_last [OF this e later] show ?thesis by (simp add: look)
  qed
  with p d s look show ?thesis by blast
qed

theorem merge_precedence_witness:
  "lead_collision \<noteq> JNull \<and>
   process_tu_lead ascii_builtins lead_collision =
     Inr [(KStr ''email'', JInt 7), (KStr ''phone'', JNull), (KStr ''first'', JNull),
          (KStr ''last'', JNull)] \<and>
   personal_part ascii_builtins lead_collision =
     Inr [(KStr ''email'', JStr ''a@b.c''), (KStr ''phone'', JNull), (KStr ''first'', JNull),
          (KStr ''last'', JNull)] \<and>
   map_of [(KStr ''email'', JInt 7), (KStr ''phone'', JNull), (KStr ''first'', JNull),
          (KStr ''last'', JNull)] (KStr ''email'') = Some (JInt 7)"
proof -
  let ?e = "JObj [(''name'', JStr ''email''), (''score'', JStr ''7'')]"
  let ?out = "[(KStr ''email'', JInt 7), (KStr ''phone'', JNull), (KStr ''first'', JNull),
          (KStr ''last'', JNull)]"
  have h1: "lead_collision \<noteq> JNull" by (simp add: lead_collision_def)
  have h2: "process_tu_lead ascii_builtins lead_collision = Inr ?out" by code_simp
  have h3: "personal_part ascii_builtins lead_collision =
     Inr [(KStr ''email'', JStr ''a@b.c''), (KStr ''phone'', JNull), (KStr ''first'', JNull),
          (KStr ''last'', JNull)]" by code_simp
  have h4: "py_get lead_collision ''score'' = Inr (JList ([] @ ?e # []))"
    by (simp add: lead_collision_def)
  have h5: "score_entry ascii_builtins ?e = Inr (KStr ''email'', 7)" by code_simp
  have h6: "''email'' \<in> set personal_variables" by (simp add: personal_variables_def)
  have "map_of ?out (KStr ''email'') = Some (JInt 7)"
    using merge_precedence [OF h1 h2, THEN conjunct2, rule_format, of "[]" ?e "[]" "''email''" 7]
      h4 h5 h6 by simp
  with h1 h2 h3 show ?thesis by blast
qed

section \<open>Absent input\<close>

text \<open>
  Claim C2. The absence signal is \<^verbatim>\<open>None\<close>, the value the Fetcher returns when the
  answer holds no match. On it the Normalizer returns the empty mapping: a result, not
  an error.
\<close>

theorem normalizer_absent: "process_tu_lead py JNull = Inr []"
  by (simp add: process_tu_lead_def)

section \<open>Personal fields\<close>

text \<open>
  Claim C3. As stated the claim fails: a value that is falsy without being absent (the
  empty string here) is stored as it is, not replaced by the null marker.
\<close>

theorem personal_blank_counterexample:
  "process_tu_lead ascii_builtins lead_blank_email =
     Inr [(KStr ''email'', JStr ''''), (KStr ''phone'', JNull), (KStr ''first'', JStr ''john''),
          (KStr ''last'', JNull)] \<and>
   map_of [(KStr ''email'', JStr ''''), (KStr ''phone'', JNull), (KStr ''first'', JStr ''john''),
          (KStr ''last'', JNull)] (KStr ''email'') \<noteq> Some JNull"
  by code_simp

text \<open>
  Claim C3, amended. Let the \<^verbatim>\<open>data\<close> section be truthy and the Normalizer return.
  Then \<^verbatim>\<open>data\<close> is a non-empty mapping and each of the four personal-field names is a
  key of the output. Unless the score mapping holds that name too (then C1 applies), the
  value under it is: the null marker when \<^verbatim>\<open>data\<close> has no such key; when the raw value
  is truthy, it is a string (non-empty) and the value is what \<^verbatim>\<open>str.lower\<close> makes of it;
  and otherwise the raw value itself, which is then falsy (the empty string, \<^verbatim>\<open>None\<close>,
  \<^verbatim>\<open>0\<close>, \<^verbatim>\<open>False\<close>, an empty list or mapping).
\<close>

theorem personal_fields_written:
  assumes "process_tu_lead py lead = Inr out"
    and "py_get lead ''data'' = Inr personal_data"
    and "truthy personal_data"
    and "pv \<in> set personal_variables"
  shows "\<exists>items scores_output.
           personal_data = JObj items \<and> items \<noteq> [] \<and>
           scores_part py lead = Inr scores_output \<and>
           KStr pv \<in> fst ` set out \<and>
           (map_of scores_output (KStr pv) = None \<longrightarrow>
              (case map_of items pv of
                 None \<Rightarrow> map_of out (KStr pv) = Some JNull
               | Some v \<Rightarrow>
                   if truthy v
                   then \<exists>str. v = JStr str \<and>
                          map_of out (KStr pv) = Some (JStr (str_lower py str))
                   else map_of out (KStr pv) = Some v))"
proof -
  from assms(2) have "lead \<noteq> JNull" by auto
  with assms(1) obtain p d s where p: "personal_part py lead = Inr p"
    and s: "scores_part py lead = Inr s" and out: "out = dict_update (dict_update d p) s"
    by (rule process_tu_lead_parts)
  from personal_part_value [OF p assms(2-4)] obtain items w
    where items: "personal_data = JObj items"
      and w: "personal_value py personal_data pv = Inr w" "map_of p (KStr pv) = Some w"
    by blast
  from assms(3) items have ne: "items \<noteq> []" by simp
  from w(2) have "KStr pv \<in> fst ` set p" by (metis map_of_eq_None_iff option.distinct(1))
  then have dom: "KStr pv \<in> fst ` set out" by (simp add: out keys_dict_update)
  have "case map_of items pv of
          None \<Rightarrow> map_of out (KStr pv) = Some JNull
        | Some v \<Rightarrow>
            if truthy v
            then \<exists>str. v = JStr str \<and> map_of out (KStr pv) = Some (JStr (str_lower py str))
            else map_of out (KStr pv) = Some v"
    if free: "map_of s (KStr pv) = None"
  proof -
    from free w(2) have "map_of out (KStr pv) = Some w"
      by (simp add: out merged_lookup [OF p s])
    then have ow: "map_of out (KStr pv) = Some w" .
    note pc = personal_value_cases [OF w(1) [unfolded items]]
    show ?thesis
    proof (cases "map_of items pv")
      case None
      with pc ow show ?thesis by simp
    next
      case (Some v)
      with pc ow show ?thesis by (cases "truthy v") auto
    qed
  qed
  with items ne s dom show ?thesis by (intro exI [of _ items] exI [of _ s]) simp
qed

theorem personal_fields_written_witness:
  "process_tu_lead ascii_builtins lead_john =
     Inr [(KStr ''email'', JNull), (KStr ''phone'', JNull), (KStr ''first'', JStr ''john''),
          (KStr ''last'', JNull)] \<and>
   py_get lead_john ''data'' = Inr (JObj [(''first'', JStr ''JOHN'')]) \<and>
   truthy (JObj [(''first'', JStr ''JOHN'')]) \<and>
   ''first'' \<in> set personal_variables \<and>
   scores_part ascii_builtins lead_john = Inr [] \<and>
   str_lower ascii_builtins ''JOHN'' = ''john'' \<and>
   map_of [(KStr ''email'', JNull), (KStr ''phone'', JNull), (KStr ''first'', JStr ''john''),
          (KStr ''last'', JNull)] (KStr ''first'') = Some (JStr (str_lower ascii_builtins ''JOHN''))"
proof -
  let ?out = "[(KStr ''email'', JNull), (KStr ''phone'', JNull), (KStr ''first'', JStr ''john''),
          (KStr ''last'', JNull)]"
  have h1: "process_tu_lead ascii_builtins lead_john = Inr ?out" by code_simp
  have h2: "py_get lead_john ''data'' = Inr (JObj [(''first'', JStr ''JOHN'')])"
    by (simp add: lead_john_def)
  have h3: "truthy (JObj [(''first'', JStr ''JOHN'')])" by simp
  have h4: "''first'' \<in> set personal_variables" by (simp add: personal_variables_def)
  have h5: "scores_part ascii_builtins lead_john = Inr []" by code_simp
  have h6: "str_lower ascii_builtins ''JOHN'' = ''john''" by code_simp
  from personal_fields_written [OF h1 h2 h3 h4] obtain items scores_output
    where items: "JObj [(''first'', JStr ''JOHN'')] = JObj items"
      and s: "scores_part ascii_builtins lead_john = Inr scores_output"
      and val: "map_of scores_output (KStr ''first'') = None \<longrightarrow>
              (case map_of items ''first'' of
                 None \<Rightarrow> map_of ?out (KStr ''first'') = Some JNull
               | Some v \<Rightarrow>
                   if truthy v
                   then \<exists>str. v = JStr str \<and>
                          map_of ?out (KStr ''first'') = Some (JStr (str_lower ascii_builtins str))
                   else map_of ?out (KStr ''first'') = Some v)"
    by (elim exE conjE)
  from s h5 have so: "scores_output = []" by simp
  from items have it: "items = [(''first'', JStr ''JOHN'')]" by simp
  have m: "map_of [(''first'', JStr ''JOHN'')] ''first'' = Some (JStr ''JOHN'')" by simp
  have n: "map_of ([] :: pydict) (KStr ''first'') = None" by simp
  have t: "truthy (JStr ''JOHN'')" by simp
  from val have "\<exists>str. JStr ''JOHN'' = JStr str \<and>
      map_of ?out (KStr ''first'') = Some (JStr (str_lower ascii_builtins str))"
    unfolding so it m n by (simp only: option.case simp_thms t if_True)
  then have "map_of ?out (KStr ''first'') = Some (JStr (str_lower ascii_builtins ''JOHN''))"
    by (elim exE conjE) (simp only: json.inject)
  with h1 h2 h3 h4 h5 h6 show ?thesis by (intro conjI)
qed

section \<open>Demographic fields\<close>

text \<open>
  Claim C4. As stated the claim fails where a score entry carries a composite name: the
  score's integer replaces the demographic value (\<^verbatim>\<open>age_years\<close> below), and it puts the
  composite key into the output although the field is no key of \<^verbatim>\<open>demo\<close>
  (\<^verbatim>\<open>income_dollars\<close> below).
\<close>

theorem demo_scored_counterexample:
  "py_get lead_scored_demo ''demo'' = Inr (JObj [(''age'', JObj [(''years'', JInt 45)])]) \<and>
   process_tu_lead ascii_builtins lead_scored_demo =
     Inr [(KStr ''age_years'', JInt 7), (KStr ''income_dollars'', JInt 9)] \<and>
   map_of [(KStr ''age_years'', JInt 7), (KStr ''income_dollars'', JInt 9)] (KStr ''age_years'')
     \<noteq> Some (JInt 45) \<and>
   map_of [(KStr ''age_years'', JInt 7), (KStr ''income_dollars'', JInt 9)]
     (KStr ''income_dollars'') \<noteq> None"
  by code_simp

text \<open>
  Claim C4, amended. Let the Normalizer return, and take one of the ten pairs whose
  composite name is no key of the score mapping (otherwise C1 applies). If \<^verbatim>\<open>demo\<close> is a
  mapping with the field as a key, the value under the field is a mapping too and the
  output holds, under the composite key, what \<^verbatim>\<open>.get(qualifier)\<close> finds there (the null
  marker when the qualifier is missing). If the field is no key of \<^verbatim>\<open>demo\<close>, or \<^verbatim>\<open>demo\<close>
  is missing or falsy, the composite key is absent from the output.
\<close>

theorem demo_fields_written:
  assumes "process_tu_lead py lead = Inr out"
    and "py_get lead ''demo'' = Inr demo"
    and "dv \<in> set demo_variables"
    and "scores_part py lead = Inr scores_output"
    and "map_of scores_output (composite dv) = None"
  shows "case demo of
           JObj items \<Rightarrow>
             (case map_of items (fst dv) of
                None \<Rightarrow> map_of out (composite dv) = None
              | Some sub \<Rightarrow>
                  \<exists>v. py_get sub (snd dv) = Inr v \<and> map_of out (composite dv) = Some v)
         | _ \<Rightarrow> map_of out (composite dv) = None"
proof -
  from assms(2) have "lead \<noteq> JNull" by auto
  with assms(1) obtain p d s where p: "personal_part py lead = Inr p"
    and d: "demo_part lead = Inr d"
    and s: "scores_part py lead = Inr s" and out: "out = dict_update (dict_update d p) s"
    by (rule process_tu_lead_parts)
  from s assms(4) out have out': "out = dict_update (dict_update d p) scores_output" by simp
  from composite_not_personal [OF assms(3)] personal_part_keys [OF p]
  have "composite dv \<notin> fst ` set p" by blast
  then have "map_of p (composite dv) = None" by (simp add: map_of_eq_None_iff)
  with assms(5) have eq: "map_of out (composite dv) = map_of d (composite dv)"
    by (simp add: out' merged_lookup [OF p assms(4)])
  from demo_part_value [OF d assms(2,3)] show ?thesis unfolding eq .
qed

theorem demo_fields_written_witness:
  "process_tu_lead ascii_builtins lead_age = Inr [(KStr ''age_years'', JInt 45)] \<and>
   py_get lead_age ''demo'' = Inr (JObj [(''age'', JObj [(''years'', JInt 45)])]) \<and>
   (''age'', ''years'') \<in> set demo_variables \<and>
   scores_part ascii_builtins lead_age = Inr [] \<and>
   map_of ([] :: pydict) (composite (''age'', ''years'')) = None \<and>
   (\<exists>v. py_get (JObj [(''years'', JInt 45)]) ''years'' = Inr v \<and>
        map_of [(KStr ''age_years'', JInt 45)] (composite (''age'', ''years'')) = Some v)"
proof -
  have h1: "process_tu_lead ascii_builtins lead_age = Inr [(KStr ''age_years'', JInt 45)]" by code_simp
  have h2: "py_get lead_age ''demo'' = Inr (JObj [(''age'', JObj [(''years'', JInt 45)])])"
    by (simp add: lead_age_def)
  have h3: "(''age'', ''years'') \<in> set demo_variables" by (simp add: demo_variables_def)
  have h4: "scores_part ascii_builtins lead_age = Inr []" by code_simp
  have h5: "map_of ([] :: pydict) (composite (''age'', ''years'')) = None" by simp
  from demo_fields_written [OF h1 h2 h3 h4 h5]
  have "\<exists>v. py_get (JObj [(''years'', JInt 45)]) ''years'' = Inr v \<and>
        map_of [(KStr ''age_years'', JInt 45)] (composite (''age'', ''years'')) = Some v"
    by simp
  with h1 h2 h3 h4 h5 show ?thesis by blast
qed

section \<open>Scores\<close>

text \<open>
  Claim C5. Let the \<^verbatim>\<open>score\<close> section be a sequence, possibly empty, of entries that each
  carry a string \<^verbatim>\<open>name\<close> and a string \<^verbatim>\<open>score\<close> that \<^verbatim>\<open>int\<close> accepts (the string-encoded
  integer of the data model), on a record whose other two sections raise nothing. Then
  the Normalizer returns; the output maps the name of every entry to an integer (a
  \<open>JInt\<close>, not a string); and that integer is what \<^verbatim>\<open>int\<close> makes of the score of the last
  entry of that name in sequence order.
\<close>

theorem scores_written:
  assumes "py_get lead ''score'' = Inr (JList es)"
    and "\<forall>e\<in>set es. score_record py e \<noteq> None"
    and "personal_part py lead = Inr p"
    and "demo_part lead = Inr d"
  shows "\<exists>out. process_tu_lead py lead = Inr out \<and>
           (\<forall>e\<in>set es. \<forall>name n. score_record py e = Some (name, n) \<longrightarrow>
              (\<exists>n'. map_of out (KStr name) = Some (JInt n'))) \<and>
           (\<forall>pre e post name n.
              es = pre @ e # post \<and> score_record py e = Some (name, n) \<and>
              (\<forall>e'\<in>set post. \<forall>n'. score_record py e' \<noteq> Some (name, n')) \<longrightarrow>
              map_of out (KStr name) = Some (JInt n))"
proof -
  have entries: "\<exists>k n. score_entry py e = Inr (k, n)" if "e \<in> set es" for e
  proof -
    from assms(2) that obtain name n where "score_record py e = Some (name, n)" by fastforce
    from score_record_entry [OF this] show ?thesis by blast
  qed
  then obtain s where loop: "scores_loop py es [] = Inr s"
    using scores_loop_ok [where es = es and out = "[]" and py = py] by blast
  then have s: "scores_part py lead = Inr s" by (simp add: scores_part_list [OF assms(1)])
  let ?out = "dict_update (dict_update d p) s"
  have out: "process_tu_lead py lead = Inr ?out"
    by (rule process_tu_lead_merge [OF assms(3,4) s])
  have scored: "map_of ?out k = Some v" if "map_of s k = Some v" for k v
    using that by (simp add: merged_lookup [OF assms(3) s])
  have every: "\<exists>n'. map_of ?out (KStr name) = Some (JInt n')"
    if mem: "e \<in> set es" and rec: "score_record py e = Some (name, n)" for e name n
  proof -
    from mem score_record_entry [OF rec] have "KStr name \<in> fst ` set s"
      unfolding scores_loop_keys [OF loop] by auto
    then obtain v where v: "map_of s (KStr name) = Some v"
      by (metis map_of_eq_None_iff not_Some_eq)
    from scores_loop_ints [OF loop v] obtain n' where "v = JInt n'" by auto
    with scored [OF v] show ?thesis by blast
  qed
  have last: "map_of ?out (KStr name) = Some (JInt n)"
    if split: "es = pre @ e # post" and rec: "score_record py e = Some (name, n)"
      and later: "\<forall>e'\<in>set post. \<forall>n'. score_record py e' \<noteq> Some (name, n')"
    for pre e post name n
  proof -
    have "score_entry py e' \<noteq> Inr (KStr name, n')" if mem: "e' \<in> set post" for e' n'
    proof
      assume hit: "score_entry py e' = Inr (KStr name, n')"
      from mem split have "e' \<in> set es" by simp
      with assms(2) obtain name' n'' where rec': "score_record py e' = Some (name', n'')"
        by fastforce
      from score_record_entry [OF rec'] hit have "name' = name" and "n'' = n'" by simp_all
      with rec' later mem show False by blast
    qed
    then have "\<forall>e'\<in>set post. \<forall>n'. score_entry py e' \<noteq> Inr (KStr name, n')" by blast
    from scores_loop_last [OF loop [unfolded split] score_record_entry [OF rec] this]
    show ?thesis by (rule scored)
  qed
  from out every last show ?thesis by blast
qed

theorem scores_written_witness:
  "py_get lead_risk ''score'' = Inr (JList
      [JObj [(''name'', JStr ''riskA''), (''score'', JStr ''111'')],
       JObj [(''name'', JStr ''riskA''), (''score'', JStr ''222'')]]) \<and>
   score_record ascii_builtins (JObj [(''name'', JStr ''riskA''), (''score'', JStr ''111'')]) = Some (''riskA'', 111) \<and>
   score_record ascii_builtins (JObj [(''name'', JStr ''riskA''), (''score'', JStr ''222'')]) = Some (''riskA'', 222) \<and>
   personal_part ascii_builtins lead_risk = Inr [] \<and> demo_part lead_risk = Inr [] \<and>
   (\<exists>out. process_tu_lead ascii_builtins lead_risk = Inr out \<and> map_of out (KStr ''riskA'') = Some (JInt 222))"
proof -
  let ?e1 = "JObj [(''name'', JStr ''riskA''), (''score'', JStr ''111'')]"
  let ?e2 = "JObj [(''name'', JStr ''riskA''), (''score'', JStr ''222'')]"
  have h1: "py_get lead_risk ''score'' = Inr (JList [?e1, ?e2])" by (simp add: lead_risk_def)
  have h2: "\<forall>e\<in>set [?e1, ?e2]. score_record ascii_builtins e \<noteq> None" by code_simp
  have h3: "personal_part ascii_builtins lead_risk = Inr []" by code_simp
  have h4: "demo_part lead_risk = Inr []" by code_simp
  have h5: "score_record ascii_builtins ?e2 = Some (''riskA'', 222)" by code_simp
  have h6: "score_record ascii_builtins ?e1 = Some (''riskA'', 111)" by code_simp
  from scores_written [OF h1 h2 h3 h4] obtain out
    where out: "process_tu_lead ascii_builtins lead_risk = Inr out"
      and last: "\<forall>pre e post name n.
              [?e1, ?e2] = pre @ e # post \<and> score_record ascii_builtins e = Some (name, n) \<and>
              (\<forall>e'\<in>set post. \<forall>n'. score_record ascii_builtins e' \<noteq> Some (name, n')) \<longrightarrow>
              map_of out (KStr name) = Some (JInt n)"
    by blast
  from last [rule_format, of "[?e1]" ?e2 "[]" "''riskA''" 222] h5
  have "map_of out (KStr ''riskA'') = Some (JInt 222)" by simp
  with h1 h3 h4 h5 h6 out show ?thesis by blast
qed

section \<open>Fatal scores and missing sections\<close>

text \<open>
  Claim C6. A score that is a string which \<^verbatim>\<open>int\<close> does not accept is fatal: when the
  sections before it raise nothing and the entries before it convert, \<^verbatim>\<open>int\<close> raises a
  \<^verbatim>\<open>ValueError\<close> that nothing catches, and the Normalizer ends with it. A missing
  section is no error and contributes nothing: without \<^verbatim>\<open>data\<close> the personal mapping is
  empty, without \<^verbatim>\<open>demo\<close> the demographic mapping is empty, without \<^verbatim>\<open>score\<close> the score
  mapping is empty, and a record with none of the three gives the empty output; a field
  that is missing in \<^verbatim>\<open>demo\<close> leaves no composite key in the demographic mapping.
\<close>

theorem bad_score_fatal_missing_section_silent:
  "(personal_part py lead = Inr p \<and> demo_part lead = Inr d \<and>
    py_get lead ''score'' = Inr (JList (pre @ JObj items # post)) \<and>
    (\<forall>e\<in>set pre. \<exists>k n. score_entry py e = Inr (k, n)) \<and>
    map_of items ''score'' = Some (JStr str) \<and> str_int py str = None \<longrightarrow>
    process_tu_lead py lead = Inl ValueError) \<and>
   (map_of kvs ''data'' = None \<longrightarrow> personal_part py (JObj kvs) = Inr []) \<and>
   (map_of kvs ''demo'' = None \<longrightarrow> demo_part (JObj kvs) = Inr []) \<and>
   (map_of kvs ''score'' = None \<longrightarrow> scores_part py (JObj kvs) = Inr []) \<and>
   (map_of kvs ''data'' = None \<and> map_of kvs ''demo'' = None \<and> map_of kvs ''score'' = None \<longrightarrow>
    process_tu_lead py (JObj kvs) = Inr []) \<and>
   (demo_part (JObj kvs) = Inr d' \<and> map_of kvs ''demo'' = Some (JObj demo_fields) \<and>
    dv \<in> set demo_variables \<and> map_of demo_fields (fst dv) = None \<longrightarrow>
    map_of d' (composite dv) = None)"
proof -
  have fatal: "process_tu_lead py lead = Inl ValueError"
    if p: "personal_part py lead = Inr p" and d: "demo_part lead = Inr d"
      and get: "py_get lead ''score'' = Inr (JList (pre @ JObj items # post))"
      and pre: "\<forall>e\<in>set pre. \<exists>k n. score_entry py e = Inr (k, n)"
      and sc: "map_of items ''score'' = Some (JStr str)" and bad: "str_int py str = None"
  proof -
    from sc bad have "score_entry py (JObj items) = Inl ValueError"
      by (simp add: score_entry_def)
    from scores_loop_first_error [OF pre this]
    have "scores_part py lead = Inl ValueError" by (simp add: scores_part_list [OF get])
    from process_tu_lead_score_error [OF p d this] show ?thesis .
  qed
  have none: "process_tu_lead py (JObj kvs) = Inr []"
    if "map_of kvs ''data'' = None" and "map_of kvs ''demo'' = None"
      and "map_of kvs ''score'' = None"
    using process_tu_lead_merge [OF personal_part_missing demo_part_missing scores_part_missing,
      OF that] by simp
  have field: "map_of d' (composite dv) = None"
    if run: "demo_part (JObj kvs) = Inr d'" and demo: "map_of kvs ''demo'' = Some (JObj demo_fields)"
      and dv: "dv \<in> set demo_variables" and missing: "map_of demo_fields (fst dv) = None"
  proof -
    from demo have "py_get (JObj kvs) ''demo'' = Inr (JObj demo_fields)" by simp
    from demo_part_value [OF run this dv] missing show ?thesis by simp
  qed
  from fatal none field show ?thesis
    by (simp add: personal_part_missing demo_part_missing scores_part_missing)
qed

theorem bad_score_fatal_missing_section_silent_witness:
  "personal_part ascii_builtins lead_bad_score = Inr [] \<and> demo_part lead_bad_score = Inr [] \<and>
   py_get lead_bad_score ''score'' =
     Inr (JList ([] @ JObj [(''name'', JStr ''riskA''), (''score'', JStr ''abc'')] # [])) \<and>
   map_of [(''name'', JStr ''riskA''), (''score'', JStr ''abc'')] ''score'' = Some (JStr ''abc'') \<and>
   str_int ascii_builtins ''abc'' = None \<and>
   process_tu_lead ascii_builtins lead_bad_score = Inl ValueError \<and>
   map_of [(''demo'', JObj [(''age'', JObj [(''years'', JInt 45)])])] ''data'' = None \<and>
   map_of [(''demo'', JObj [(''age'', JObj [(''years'', JInt 45)])])] ''score'' = None \<and>
   personal_part ascii_builtins lead_age = Inr [] \<and> scores_part ascii_builtins lead_age = Inr [] \<and>
   demo_part lead_age = Inr [(KStr ''age_years'', JInt 45)] \<and>
   (''income'', ''dollars'') \<in> set demo_variables \<and>
   map_of [(''age'', JObj [(''years'', JInt 45)])] (fst (''income'', ''dollars'')) = None \<and>
   map_of [(KStr ''age_years'', JInt 45)] (composite (''income'', ''dollars'')) = None \<and>
   map_of ([] :: (string \<times> json) list) ''demo'' = None \<and>
   process_tu_lead ascii_builtins (JObj []) = Inr []"
proof -
  let ?items = "[(''name'', JStr ''riskA''), (''score'', JStr ''abc'')]"
  let ?kvs = "[(''demo'', JObj [(''age'', JObj [(''years'', JInt 45)])])]"
  let ?fields = "[(''age'', JObj [(''years'', JInt 45)])]"
  let ?d' = "[(KStr ''age_years'', JInt 45)]"
  have h1: "personal_part ascii_builtins lead_bad_score = Inr []" by code_simp
  have h2: "demo_part lead_bad_score = Inr []" by code_simp
  have h3: "py_get lead_bad_score ''score'' = Inr (JList ([] @ JObj ?items # []))"
    by (simp add: lead_bad_score_def)
  have h4: "\<forall>e\<in>set ([] :: json list). \<exists>k n. score_entry ascii_builtins e = Inr (k, n)" by simp
  have h5: "map_of ?items ''score'' = Some (JStr ''abc'')" by simp
  have h6: "str_int ascii_builtins ''abc'' = None" by code_simp
  have h7: "map_of ?kvs ''data'' = None" by simp
  have h8: "map_of ?kvs ''score'' = None" by simp
  have h9: "demo_part (JObj ?kvs) = Inr ?d'" by code_simp
  have h10: "map_of ?kvs ''demo'' = Some (JObj ?fields)" by simp
  have h11: "(''income'', ''dollars'') \<in> set demo_variables" by (simp add: demo_variables_def)
  have h12: "map_of ?fields (fst (''income'', ''dollars'')) = None" by simp
  have lead_age: "lead_age = JObj ?kvs" by (simp add: lead_age_def)
  note first = bad_score_fatal_missing_section_silent
    [of ascii_builtins lead_bad_score "[]" "[]" "[]" ?items "[]" "''abc''" ?kvs ?d' ?fields "(''income'', ''dollars'')"]
  note second = bad_score_fatal_missing_section_silent
    [of ascii_builtins lead_bad_score "[]" "[]" "[]" ?items "[]" "''abc''" "[]" ?d' ?fields "(''income'', ''dollars'')"]
  from first h1 h2 h3 h4 h5 h6 have c1: "process_tu_lead ascii_builtins lead_bad_score = Inl ValueError"
    by blast
  from first h7 h8 have c2: "personal_part ascii_builtins lead_age = Inr [] \<and> scores_part ascii_builtins lead_age = Inr []"
    unfolding lead_age by blast
  from first h9 h10 h11 h12 have c3: "map_of ?d' (composite (''income'', ''dollars'')) = None"
    by blast
  have h13: "map_of ([] :: (string \<times> json) list) ''demo'' = None" by simp
  from second have c4: "process_tu_lead ascii_builtins (JObj []) = Inr []" by simp
  from h1 h2 h3 h5 h6 c1 h7 h8 c2 h9 h11 h12 c3 h13 c4 show ?thesis
    unfolding lead_age by blast
qed

section \<open>The result of the Fetcher\<close>

text \<open>
  Claim C7. As stated the claim fails: when \<^verbatim>\<open>transaction\<close> is present and is no mapping
  (\<^verbatim>\<open>null\<close> here), there is no nested \<^verbatim>\<open>output\<close> key, yet the Fetcher does not return
  the absence signal: \<^verbatim>\<open>.keys()\<close> raises.
\<close>

theorem fetcher_null_transaction_counterexample:
  "query_transunion (JObj [(''transaction'', JNull)]) = Inl AttributeError \<and>
   query_transunion (JObj [(''transaction'', JNull)]) \<noteq> Inr JNull"
  by (simp add: query_transunion_def)

text \<open>
  Claim C7, amended. For a parsed response that is a mapping: without the key
  \<^verbatim>\<open>transaction\<close> the Fetcher returns the absence signal; with \<^verbatim>\<open>transaction\<close> a mapping
  it returns the value under \<^verbatim>\<open>output\<close> there, and the absence signal when \<^verbatim>\<open>output\<close> is
  missing; with \<^verbatim>\<open>transaction\<close> present and no mapping it raises an \<^verbatim>\<open>AttributeError\<close>.
\<close>

theorem fetcher_result:
  "query_transunion (JObj kvs) =
     (case map_of kvs ''transaction'' of
        None \<Rightarrow> Inr JNull
      | Some (JObj transaction) \<Rightarrow>
          (case map_of transaction ''output'' of
             None \<Rightarrow> Inr JNull
           | Some out \<Rightarrow> Inr out)
      | Some _ \<Rightarrow> Inl AttributeError)"
proof (cases "map_of kvs ''transaction''")
  case None
  then have "''transaction'' \<notin> fst ` set kvs" by (simp add: map_of_eq_None_iff)
  with None show ?thesis by (simp add: query_transunion_def)
next
  case (Some t)
  then have mem: "''transaction'' \<in> fst ` set kvs"
    by (metis map_of_eq_None_iff option.distinct(1))
  show ?thesis
  proof (cases t)
    case (JObj transaction)
    show ?thesis
    proof (cases "map_of transaction ''output''")
      case None
      then have "''output'' \<notin> fst ` set transaction" by (simp add: map_of_eq_None_iff)
      with None Some JObj mem show ?thesis by (simp add: query_transunion_def)
    next
      case (Some out)
      then have "''output'' \<in> fst ` set transaction"
        by (metis map_of_eq_None_iff option.distinct(1))
      with Some \<open>map_of kvs ''transaction'' = Some t\<close> JObj mem show ?thesis
        by (simp add: query_transunion_def)
    qed
  qed (use Some mem in \<open>simp_all add: query_transunion_def\<close>)
qed

theorem fetcher_result_witness:
  "query_transunion (JObj [(''transaction'', JObj [(''output'', notebook_lead)])])
     = Inr notebook_lead \<and>
   query_transunion (JObj [(''transaction'', JObj [(''status'', JStr ''none'')])]) = Inr JNull \<and>
   query_transunion (JObj [(''error'', JStr ''none'')]) = Inr JNull"
  using fetcher_result [of "[(''transaction'', JObj [(''output'', notebook_lead)])]"]
    fetcher_result [of "[(''transaction'', JObj [(''status'', JStr ''none'')])]"]
    fetcher_result [of "[(''error'', JStr ''none'')]"]
  by simp

section \<open>Keys of the output\<close>

text \<open>
  Claim C8. On a record that is not absent and on which the Normalizer returns, a key
  of the output is one of the four personal-field names, or one of the ten composite
  names, or the \<^verbatim>\<open>name\<close> of an entry of the \<^verbatim>\<open>score\<close> sequence, as \<^verbatim>\<open>.get('name')\<close>
  reads it (\<^verbatim>\<open>None\<close> for an entry without the key).
\<close>

theorem output_keys:
  assumes "lead \<noteq> JNull" and "process_tu_lead py lead = Inr out" and "k \<in> fst ` set out"
  shows "k \<in> KStr ` set personal_variables \<or>
         k \<in> composite ` set demo_variables \<or>
         (\<exists>es e name. py_get lead ''score'' = Inr (JList es) \<and> e \<in> set es \<and>
            py_get e ''name'' = Inr name \<and> py_key name = Inr k)"
proof -
  from assms(2,1) obtain p d s where p: "personal_part py lead = Inr p"
    and d: "demo_part lead = Inr d" and s: "scores_part py lead = Inr s"
    and out: "out = dict_update (dict_update d p) s"
    by (rule process_tu_lead_parts)
  from assms(3) have "k \<in> fst ` set d \<or> k \<in> fst ` set p \<or> k \<in> fst ` set s"
    by (auto simp: out keys_dict_update)
  with personal_part_keys [OF p] demo_part_keys [OF d] scores_part_keys [OF s]
  show ?thesis by blast
qed

theorem output_keys_witness:
  "notebook_lead \<noteq> JNull \<and>
   process_tu_lead ascii_builtins notebook_lead = Inr
     [(KStr ''email'', JNull), (KStr ''phone'', JStr ''3124784892''),
      (KStr ''first'', JStr ''jawhar''), (KStr ''last'', JStr ''mohammed''),
      (KStr ''ebureau-score-market-201801220508'', JInt 222),
      (KStr ''ebureau-score-market-201805170506'', JInt 520)] \<and>
   KStr ''ebureau-score-market-201805170506'' \<in> fst ` set
     [(KStr ''email'', JNull), (KStr ''phone'', JStr ''3124784892''),
      (KStr ''first'', JStr ''jawhar''), (KStr ''last'', JStr ''mohammed''),
      (KStr ''ebureau-score-market-201801220508'', JInt 222),
      (KStr ''ebureau-score-market-201805170506'', JInt 520)] \<and>
   (\<exists>es e name. py_get notebook_lead ''score'' = Inr (JList es) \<and> e \<in> set es \<and>
      py_get e ''name'' = Inr name \<and>
      py_key name = Inr (KStr ''ebureau-score-market-201805170506''))"
proof -
  let ?k = "KStr ''ebureau-score-market-201805170506''"
  have h1: "notebook_lead \<noteq> JNull" by (simp add: notebook_lead_def)
  have h3: "?k \<in> fst ` set
     [(KStr ''email'', JNull), (KStr ''phone'', JStr ''3124784892''),
      (KStr ''first'', JStr ''jawhar''), (KStr ''last'', JStr ''mohammed''),
      (KStr ''ebureau-score-market-201801220508'', JInt 222),
      (KStr ''ebureau-score-market-201805170506'', JInt 520)]" by simp
  have n1: "?k \<notin> KStr ` set personal_variables" by (simp add: personal_variables_def)
  have n2: "?k \<notin> composite ` set demo_variables"
    by (simp add: demo_variables_def composite_def)
  from output_keys [OF h1 notebook_run h3] n1 n2
  have "\<exists>es e name. py_get notebook_lead ''score'' = Inr (JList es) \<and> e \<in> set es \<and>
      py_get e ''name'' = Inr name \<and> py_key name = Inr ?k" by blast
  with h1 notebook_run h3 show ?thesis by blast
qed

section \<open>Lower-casing needs a string\<close>

text \<open>
  Claim C9. Let \<^verbatim>\<open>data\<close> be a non-empty mapping. The personal loop returns exactly if
  every value that \<^verbatim>\<open>data\<close> holds under one of the four names is a string or falsy. If
  one of them is truthy and no string (the integer \<^verbatim>\<open>3124784892\<close> under \<^verbatim>\<open>phone\<close>, say),
  \<^verbatim>\<open>.lower()\<close> raises an \<^verbatim>\<open>AttributeError\<close> and the Normalizer ends with it; the raw
  value is not written.
\<close>

theorem lower_needs_string:
  assumes "py_get lead ''data'' = Inr (JObj items)" and "items \<noteq> []"
  shows "((\<exists>p. personal_part py lead = Inr p) \<longleftrightarrow>
            (\<forall>pv\<in>set personal_variables. \<forall>v. map_of items pv = Some v \<longrightarrow>
               (\<exists>str. v = JStr str) \<or> \<not> truthy v)) \<and>
         ((\<exists>pv\<in>set personal_variables. \<exists>v. map_of items pv = Some v \<and>
               truthy v \<and> (\<forall>str. v \<noteq> JStr str)) \<longrightarrow>
            process_tu_lead py lead = Inl AttributeError)"
proof -
  from assms have part: "personal_part py lead = personal_loop py (JObj items) personal_variables []"
    by (simp add: personal_part_def)
  have iff: "(\<exists>p. personal_part py lead = Inr p) \<longleftrightarrow>
      (\<forall>pv\<in>set personal_variables. \<forall>v. map_of items pv = Some v \<longrightarrow>
         (\<exists>str. v = JStr str) \<or> \<not> truthy v)" (is "?ok \<longleftrightarrow> ?strings")
  proof
    assume ?ok
    then obtain p where run: "personal_loop py (JObj items) personal_variables [] = Inr p"
      by (auto simp: part)
    show ?strings
    proof
      fix pv assume "pv \<in> set personal_variables"
      from personal_loop_value [OF run this]
      have "\<exists>w. personal_value py (JObj items) pv = Inr w" by blast
      then show "\<forall>v. map_of items pv = Some v \<longrightarrow> (\<exists>str. v = JStr str) \<or> \<not> truthy v"
        by (simp only: personal_value_ok)
    qed
  next
    assume ?strings
    then have "\<forall>pv\<in>set personal_variables. \<exists>w. personal_value py (JObj items) pv = Inr w"
      by (simp only: personal_value_ok)
    from personal_loop_ok [OF this] show ?ok by (simp add: part)
  qed
  have "process_tu_lead py lead = Inl AttributeError"
    if "\<exists>pv\<in>set personal_variables. \<exists>v. map_of items pv = Some v \<and>
               truthy v \<and> (\<forall>str. v \<noteq> JStr str)"
  proof -
    from that iff have "\<not> (\<exists>p. personal_part py lead = Inr p)" by blast
    then obtain err where err: "personal_part py lead = Inl err"
      by (cases "personal_part py lead") auto
    then have "err = AttributeError" unfolding part by (rule personal_loop_error)
    moreover from assms(1) have "lead \<noteq> JNull" by auto
    ultimately show ?thesis using err by (simp add: process_tu_lead_personal_error)
  qed
  with iff show ?thesis by blast
qed

theorem lower_needs_string_witness:
  "py_get lead_phone_int ''data'' = Inr (JObj [(''phone'', JInt 3124784892)]) \<and>
   [(''phone'', JInt 3124784892)] \<noteq> [] \<and>
   ''phone'' \<in> set personal_variables \<and>
   map_of [(''phone'', JInt 3124784892)] ''phone'' = Some (JInt 3124784892) \<and>
   truthy (JInt 3124784892) \<and>
   process_tu_lead ascii_builtins lead_phone_int = Inl AttributeError"
proof -
  let ?items = "[(''phone'', JInt 3124784892)]"
  have h1: "py_get lead_phone_int ''data'' = Inr (JObj ?items)"
    by (simp add: lead_phone_int_def)
  have h2: "?items \<noteq> []" by simp
  have h3: "''phone'' \<in> set personal_variables" by (simp add: personal_variables_def)
  have h4: "map_of ?items ''phone'' = Some (JInt 3124784892)" by simp
  have h5: "truthy (JInt 3124784892)" by simp
  have h6: "\<forall>str. JInt 3124784892 \<noteq> JStr str" by simp
  from h3 h4 h5 h6 have "\<exists>pv\<in>set personal_variables. \<exists>v. map_of ?items pv = Some v \<and>
               truthy v \<and> (\<forall>str. v \<noteq> JStr str)" by blast
  with lower_needs_string [OF h1 h2]
  have "process_tu_lead ascii_builtins lead_phone_int = Inl AttributeError" by blast
  with h1 h2 h3 h4 h5 show ?thesis by blast
qed

section \<open>Score entries without a score or a name\<close>

text \<open>
  Claim C10. An entry without the \<^verbatim>\<open>score\<close> key is fatal: \<^verbatim>\<open>.get\<close> yields \<^verbatim>\<open>None\<close> and
  \<^verbatim>\<open>int(None)\<close> raises a \<^verbatim>\<open>TypeError\<close>, with which the Normalizer ends (the sections and
  entries before it raising nothing). The score loop returns only if every entry holds
  a \<^verbatim>\<open>score\<close> that \<^verbatim>\<open>int\<close> converts. An entry without the \<^verbatim>\<open>name\<close> key and with a
  convertible score does not raise: its integer is stored under the key \<^verbatim>\<open>None\<close>, where
  the output holds it unless a later entry stores under \<^verbatim>\<open>None\<close> again.
\<close>

theorem missing_score_fatal_missing_name_silent:
  "(personal_part py lead = Inr p \<and> demo_part lead = Inr d \<and>
    py_get lead ''score'' = Inr (JList (pre @ JObj items # post)) \<and>
    (\<forall>e\<in>set pre. \<exists>k n. score_entry py e = Inr (k, n)) \<and>
    map_of items ''score'' = None \<longrightarrow>
    process_tu_lead py lead = Inl TypeError) \<and>
   (scores_part py lead = Inr s \<and> py_get lead ''score'' = Inr (JList es) \<longrightarrow>
    (\<forall>e\<in>set es. \<exists>v n. py_get e ''score'' = Inr v \<and> py_int py v = Inr n)) \<and>
   (personal_part py lead = Inr p \<and> demo_part lead = Inr d \<and>
    py_get lead ''score'' = Inr (JList (pre @ JObj items # post)) \<and>
    (\<forall>e\<in>set (pre @ post). \<exists>k n. score_entry py e = Inr (k, n)) \<and>
    map_of items ''name'' = None \<and> map_of items ''score'' = Some v \<and> py_int py v = Inr n \<and>
    (\<forall>e\<in>set post. \<forall>n'. score_entry py e \<noteq> Inr (KNone, n')) \<longrightarrow>
    (\<exists>out. process_tu_lead py lead = Inr out \<and> map_of out KNone = Some (JInt n)))"
proof -
  have fatal: "process_tu_lead py lead = Inl TypeError"
    if p: "personal_part py lead = Inr p" and d: "demo_part lead = Inr d"
      and get: "py_get lead ''score'' = Inr (JList (pre @ JObj items # post))"
      and pre: "\<forall>e\<in>set pre. \<exists>k n. score_entry py e = Inr (k, n)"
      and sc: "map_of items ''score'' = None"
  proof -
    from sc have "score_entry py (JObj items) = Inl TypeError"
      by (simp add: score_entry_def)
    from scores_loop_first_error [OF pre this]
    have "scores_part py lead = Inl TypeError" by (simp add: scores_part_list [OF get])
    from process_tu_lead_score_error [OF p d this] show ?thesis .
  qed
  have only: "\<forall>e\<in>set es. \<exists>v n. py_get e ''score'' = Inr v \<and> py_int py v = Inr n"
    if s: "scores_part py lead = Inr s" and get: "py_get lead ''score'' = Inr (JList es)"
  proof
    fix e assume mem: "e \<in> set es"
    from s have "scores_loop py es [] = Inr s" by (simp add: scores_part_list [OF get])
    from scores_loop_entries [OF this mem] show "\<exists>v n. py_get e ''score'' = Inr v \<and> py_int py v = Inr n"
      by (auto simp: score_entry_Inr)
  qed
  have nameless: "\<exists>out. process_tu_lead py lead = Inr out \<and> map_of out KNone = Some (JInt n)"
    if p: "personal_part py lead = Inr p" and d: "demo_part lead = Inr d"
      and get: "py_get lead ''score'' = Inr (JList (pre @ JObj items # post))"
      and others: "\<forall>e\<in>set (pre @ post). \<exists>k n. score_entry py e = Inr (k, n)"
      and nm: "map_of items ''name'' = None"
      and sc: "map_of items ''score'' = Some v" and conv: "py_int py v = Inr n"
      and later: "\<forall>e\<in>set post. \<forall>n'. score_entry py e \<noteq> Inr (KNone, n')"
  proof -
    from nm sc conv have e: "score_entry py (JObj items) = Inr (KNone, n)"
      by (simp add: score_entry_def)
    with others have "\<forall>e\<in>set (pre @ JObj items # post). \<exists>k n. score_entry py e = Inr (k, n)"
      by auto
    from scores_loop_ok [OF this] obtain s
      where loop: "scores_loop py (pre @ JObj items # post) [] = Inr s" by blast
    then have s: "scores_part py lead = Inr s" by (simp add: scores_part_list [OF get])
    from scores_loop_last [OF loop e later] have "map_of s KNone = Some (JInt n)" .
    then have "map_of (dict_update (dict_update d p) s) KNone = Some (JInt n)"
      by (simp add: merged_lookup [OF p s])
    with process_tu_lead_merge [OF p d s] show ?thesis by blast
  qed
  from fatal only nameless show ?thesis by blast
qed

theorem missing_score_fatal_missing_name_silent_witness:
  "personal_part ascii_builtins lead_no_score_key = Inr [] \<and> demo_part lead_no_score_key = Inr [] \<and>
   py_get lead_no_score_key ''score'' = Inr (JList ([] @ JObj [(''name'', JStr ''riskA'')] # [])) \<and>
   map_of [(''name'', JStr ''riskA'')] ''score'' = None \<and>
   process_tu_lead ascii_builtins lead_no_score_key = Inl TypeError \<and>
   personal_part ascii_builtins lead_no_name = Inr [] \<and> demo_part lead_no_name = Inr [] \<and>
   py_get lead_no_name ''score'' = Inr (JList ([] @ JObj [(''score'', JStr ''5'')] # [])) \<and>
   map_of [(''score'', JStr ''5'')] ''name'' = None \<and>
   map_of [(''score'', JStr ''5'')] ''score'' = Some (JStr ''5'') \<and>
   py_int ascii_builtins (JStr ''5'') = Inr 5 \<and>
   (\<exists>out. process_tu_lead ascii_builtins lead_no_name = Inr out \<and> map_of out KNone = Some (JInt 5))"
proof -
  let ?a = "[(''name'', JStr ''riskA'')]"
  let ?b = "[(''score'', JStr ''5'')]"
  have h1: "personal_part ascii_builtins lead_no_score_key = Inr []" by code_simp
  have h2: "demo_part lead_no_score_key = Inr []" by code_simp
  have h3: "py_get lead_no_score_key ''score'' = Inr (JList ([] @ JObj ?a # []))"
    by (simp add: lead_no_score_key_def)
  have h4: "\<forall>e\<in>set ([] :: json list). \<exists>k n. score_entry ascii_builtins e = Inr (k, n)" by simp
  have h5: "map_of ?a ''score'' = None" by simp
  have g1: "personal_part ascii_builtins lead_no_name = Inr []" by code_simp
  have g2: "demo_part lead_no_name = Inr []" by code_simp
  have g3: "py_get lead_no_name ''score'' = Inr (JList ([] @ JObj ?b # []))"
    by (simp add: lead_no_name_def)
  have g4: "\<forall>e\<in>set ([] @ [] :: json list). \<exists>k n. score_entry ascii_builtins e = Inr (k, n)" by simp
  have g5: "map_of ?b ''name'' = None" by simp
  have g6: "map_of ?b ''score'' = Some (JStr ''5'')" by simp
  have g7: "py_int ascii_builtins (JStr ''5'') = Inr 5" by code_simp
  have g8: "\<forall>e\<in>set ([] :: json list). \<forall>n'. score_entry ascii_builtins e \<noteq> Inr (KNone, n')" by simp
  from missing_score_fatal_missing_name_silent
    [of ascii_builtins lead_no_score_key "[]" "[]" "[]" ?a "[]"] h1 h2 h3 h4 h5
  have c1: "process_tu_lead ascii_builtins lead_no_score_key = Inl TypeError" by blast
  from missing_score_fatal_missing_name_silent
    [of ascii_builtins lead_no_name "[]" "[]" "[]" ?b "[]" _ _ "JStr ''5''" 5] g1 g2 g3 g4 g5 g6 g7 g8
  have c2: "\<exists>out. process_tu_lead ascii_builtins lead_no_name = Inr out \<and> map_of out KNone = Some (JInt 5)"
    by blast
  from h1 h2 h3 h5 c1 g1 g2 g3 g5 g6 g7 c2 show ?thesis by blast
qed

end
